theory Spec2Isabelle
  imports Main "HOL-Library.Word"
begin

section \<open>Strings of the site check\<close>

text \<open>
  The script \<^verbatim>\<open>scripts/check-site.ts\<close> works on file paths, URLs and heading texts.
  They are modelled as \<^typ>\<open>string\<close>, a character outside ASCII being the sequence of
  its UTF-8 bytes. \<open>toLowerCase\<close> maps the letters \<^verbatim>\<open>A\<close> to \<^verbatim>\<open>Z\<close> and leaves every
  other byte as it is: this is what JavaScript does on ASCII text, and what the flag
  \<^verbatim>\<open>i\<close> of a regular expression does for a pattern of ASCII characters. On a letter
  outside ASCII the \<^verbatim>\<open>toLowerCase\<close> of JavaScript lower-cases too, which this model
  does not follow; no statement below is about such a name.
\<close>

definition upper_letters :: string where
  "upper_letters = ''ABCDEFGHIJKLMNOPQRSTUVWXYZ''"

definition lower_letters :: string where
  "lower_letters = ''abcdefghijklmnopqrstuvwxyz''"

definition toLowerCase_char :: "char \<Rightarrow> char" where
  "toLowerCase_char c =
     (case map_of (zip upper_letters lower_letters) c of Some l \<Rightarrow> l | None \<Rightarrow> c)"

definition toLowerCase :: "string \<Rightarrow> string" where
  "toLowerCase s = map toLowerCase_char s"

definition backslash :: char where
  "backslash = CHR 0x5C"

text \<open>\<^verbatim>\<open>s.startsWith(p)\<close>, and \<^verbatim>\<open>s.includes(p)\<close>: some position of \<open>s\<close> starts with \<open>p\<close>.\<close>

definition startsWith :: "string \<Rightarrow> string \<Rightarrow> bool" where
  "startsWith s p = (take (length p) s = p)"

fun includes_str :: "string \<Rightarrow> string \<Rightarrow> bool" where
  "includes_str [] p = (p = [])"
| "includes_str (c # cs) p = (startsWith (c # cs) p \<or> includes_str cs p)"

text \<open>
  \<^verbatim>\<open>s.split(sep)\<close> for a one-character separator. The result is never empty:
  the empty string splits into one empty part.
\<close>

fun split_on :: "char \<Rightarrow> string \<Rightarrow> string list" where
  "split_on sep [] = [[]]"
| "split_on sep (c # cs) =
     (if c = sep then [] # split_on sep cs
      else (case split_on sep cs of
              [] \<Rightarrow> [[c]]
            | w # ws \<Rightarrow> (c # w) # ws))"

text \<open>
  \<^verbatim>\<open>s.replace(pat, rep)\<close> with a string pattern: JavaScript replaces the first
  occurrence only and leaves the rest of the string as it is.
\<close>

fun replace_first :: "string \<Rightarrow> string \<Rightarrow> string \<Rightarrow> string" where
  "replace_first pat rep [] = (if pat = [] then rep else [])"
| "replace_first pat rep (c # cs) =
     (if startsWith (c # cs) pat then rep @ drop (length pat) (c # cs)
      else c # replace_first pat rep cs)"

text \<open>\<^verbatim>\<open>s.replace(/\\/g, '/')\<close>: every backslash becomes a slash.\<close>

definition replace_backslashes :: "string \<Rightarrow> string" where
  "replace_backslashes s = map (\<lambda>c. if c = backslash then CHR ''/'' else c) s"

section \<open>The regular expression of the page inventory\<close>

text \<open>
  The fragment of JavaScript regular expressions the script uses: literals, a character
  class, optional groups (greedy), alternation, sequence and the end anchor \<^verbatim>\<open>$\<close>.
  All matching is case-insensitive (flag \<^verbatim>\<open>i\<close>).
\<close>

datatype regex =
    Lit string
  | OneOf "char list"
  | Opt regex
  | Alt regex regex
  | Seq regex regex
  | EndAnchor

text \<open>
  \<open>rx_match r s\<close> lists, in the order a backtracking matcher tries them, what is left of
  \<open>s\<close> after \<open>r\<close> has matched a prefix of it. An optional group is tried with its body
  first, an alternation left to right.
\<close>

fun rx_match :: "regex \<Rightarrow> string \<Rightarrow> string list" where
  "rx_match (Lit p) s =
     (if toLowerCase (take (length p) s) = toLowerCase p then [drop (length p) s] else [])"
| "rx_match (OneOf cs) s =
     (case s of
        [] \<Rightarrow> []
      | c # rest \<Rightarrow> if toLowerCase_char c \<in> set (toLowerCase cs) then [rest] else [])"
| "rx_match (Opt r) s = rx_match r s @ [s]"
| "rx_match (Alt a b) s = rx_match a s @ rx_match b s"
| "rx_match (Seq a b) s = concat (map (rx_match b) (rx_match a s))"
| "rx_match EndAnchor s = (if s = [] then [[]] else [])"

text \<open>
  \<^verbatim>\<open>s.replace(regex, '')\<close> without the flag \<^verbatim>\<open>g\<close>: the leftmost position where the
  expression matches is found, the first match there is removed, the text before it and
  after it is kept. Without a match the string is returned as it is.
\<close>

fun rx_remove_first :: "regex \<Rightarrow> string \<Rightarrow> string" where
  "rx_remove_first r [] = (case rx_match r [] of [] \<Rightarrow> [] | rest # _ \<Rightarrow> rest)"
| "rx_remove_first r (c # cs) =
     (case rx_match r (c # cs) of
        [] \<Rightarrow> c # rx_remove_first r cs
      | rest # _ \<Rightarrow> rest)"

text \<open>
  \<^verbatim>\<open>/([/\\]index)?(\.\$tab-design)?((\.zh-cn)|(\.en-us))?\.md$/i\<close>
\<close>

definition suffix_regex :: regex where
  "suffix_regex =
     Seq (Opt (Seq (OneOf [CHR ''/'', backslash]) (Lit ''index'')))
    (Seq (Opt (Lit ''.$tab-design''))
    (Seq (Opt (Alt (Lit ''.zh-cn'') (Lit ''.en-us'')))
    (Seq (Lit ''.md'') EndAnchor)))"

section \<open>Page inventory\<close>

text \<open>The callback of \<^verbatim>\<open>map\<close>: one source file path to its page identifier.\<close>

definition normalizePath :: "string \<Rightarrow> string" where
  "normalizePath filePath =
     (let normalizedPath = replace_backslashes filePath
      in rx_remove_first suffix_regex normalizedPath)"

text \<open>
  \<^verbatim>\<open>uniq\<close> of lodash keeps the first occurrence of every element, in order.
  \<open>seen\<close> is the result built so far.
\<close>

fun uniq_from :: "'a list \<Rightarrow> 'a list \<Rightarrow> 'a list" where
  "uniq_from seen [] = []"
| "uniq_from seen (x # xs) =
     (if x \<in> set seen then uniq_from seen xs else x # uniq_from (x # seen) xs)"

definition uniq :: "'a list \<Rightarrow> 'a list" where
  "uniq xs = uniq_from [] xs"

text \<open>
  \<open>components\<close>: the inventory. Its argument is what \<^verbatim>\<open>globSync\<close> returned for the
  pattern \<^verbatim>\<open>components/!(overview)/*.md\<close>.
\<close>

definition components :: "string list \<Rightarrow> string list" where
  "components files =
     filter (\<lambda>component. \<not> includes_str component ''_util'') (uniq (map normalizePath files))"

text \<open>
  The paths the pattern \<^verbatim>\<open>components/!(overview)/*.md\<close> selects (option
  \<^verbatim>\<open>dot: false\<close>): three segments, the first \<^verbatim>\<open>components\<close>, the second any
  directory name but \<^verbatim>\<open>overview\<close>, the third a file name ending in \<^verbatim>\<open>.md\<close>;
  no segment starts with a dot.
\<close>

definition hidden :: "string \<Rightarrow> bool" where
  "hidden seg = (case seg of [] \<Rightarrow> False | c # _ \<Rightarrow> c = CHR ''.'')"

definition endsWith :: "string \<Rightarrow> string \<Rightarrow> bool" where
  "endsWith s p = startsWith (rev s) (rev p)"

definition discovered :: "string \<Rightarrow> bool" where
  "discovered filePath =
     (case split_on (CHR ''/'') filePath of
        [root, dir, file] \<Rightarrow>
          root = ''components'' \<and> dir \<noteq> [] \<and> dir \<noteq> ''overview'' \<and> \<not> hidden dir
          \<and> endsWith file ''.md'' \<and> \<not> hidden file
      | _ \<Rightarrow> False)"

section \<open>Source paths of one page\<close>

text \<open>
  The vocabulary of the statement on source paths of one page. Such paths are a common
  base followed by a suffix: an optional \<^verbatim>\<open>/index\<close> segment (with either separator),
  an optional \<^verbatim>\<open>.$tab-design\<close>, an optional locale \<^verbatim>\<open>.zh-cn\<close> or \<^verbatim>\<open>.en-us\<close>, and
  \<^verbatim>\<open>.md\<close>. \<open>stripped_suffixes\<close> lists these suffixes in lower case;
  \<open>stripped_suffix\<close> accepts them in any letter case (the files are named
  \<^verbatim>\<open>index.zh-CN.md\<close> and \<^verbatim>\<open>index.en-US.md\<close>).
\<close>

definition stripped_suffixes :: "string list" where
  "stripped_suffixes =
     [i @ t @ l @ ''.md''.
        i \<leftarrow> [[], ''/index'', backslash # ''index''],
        t \<leftarrow> [[], ''.$tab-design''],
        l \<leftarrow> [[], ''.zh-cn'', ''.en-us'']]"





section \<open>Component names\<close>

definition handleComponentName :: "string \<Rightarrow> string" where
  "handleComponentName name =
     (let parts = split_on (CHR ''/'') name;
          componentName = last parts
      in replace_first ''-'' '''' (replace_first ''-cn'' '''' (toLowerCase componentName)))"

section \<open>Rendering a page\<close>

text \<open>
  What the script's collaborators (port finder, browser tab, plain fetch, HTML parser) do
  is not decided by the script: it is the \<open>world\<close> a call of \<open>render\<close> runs in. A call
  that can throw is a value of a sum type, \<open>Inl\<close> the error thrown.
\<close>

datatype js_error = JsError string

text \<open>
  The parsed document, as far as the script queries it: the text of every \<^verbatim>\<open>title\<close>
  element, the text of every \<^verbatim>\<open>h1\<close> element, and the number of elements that the
  selector \<^verbatim>\<open>.markdown table\<close> finds.
\<close>

record document =
  titles :: "string list"
  h1s :: "string list"
  markdown_tables :: nat

record response =
  response_status :: int

record fetch_response =
  resp_status :: int
  resp_text :: "js_error + string"

record world =
  portPromise :: "js_error + nat"
  page_goto :: "string \<Rightarrow> js_error + response option"
  page_waitForSelector :: "string \<Rightarrow> string \<Rightarrow> js_error + unit"
  page_content :: "string \<Rightarrow> js_error + string"
  fetch :: "string \<Rightarrow> js_error + fetch_response"
  load :: "string \<Rightarrow> document"

text \<open>
  What a call of \<open>render\<close> does to its collaborators, in order. \<open>WaitForSelector\<close> records
  whether the selector appeared.
\<close>

datatype event =
    Goto string
  | Settle nat
  | WaitForSelector string bool
  | Content
  | ConsoleError string js_error
  | Fetch string

type_synonym render_result = "js_error + (int \<times> document)"

text \<open>The decimal digits of a number, as a template literal prints it.\<close>

fun decimal :: "nat \<Rightarrow> string" where
  "decimal n =
     (if n < 10 then [''0123456789'' ! n]
      else decimal (n div 10) @ [''0123456789'' ! (n mod 10)])"

definition render_url :: "nat \<Rightarrow> string \<Rightarrow> string" where
  "render_url port path = ''http://127.0.0.1:'' @ decimal port @ path"

text \<open>\<^verbatim>\<open>response?.status() || 0\<close>\<close>

definition status_or_0 :: "response option \<Rightarrow> int" where
  "status_or_0 r =
     (case r of
        None \<Rightarrow> 0
      | Some resp \<Rightarrow> if response_status resp = 0 then 0 else response_status resp)"

text \<open>
  The \<^verbatim>\<open>try\<close> block of \<open>render\<close>: navigation, the settle delay of 3000 ms, the wait for
  \<^verbatim>\<open>.markdown table\<close> inside its own \<^verbatim>\<open>try\<close> with an empty \<^verbatim>\<open>catch\<close>, then the page
  content. The settle delay is a timer and cannot throw.
\<close>

definition render_try :: "world \<Rightarrow> string \<Rightarrow> event list \<times> render_result" where
  "render_try w url =
     (case page_goto w url of
        Inl e \<Rightarrow> ([Goto url], Inl e)
      | Inr resp \<Rightarrow>
          (let found = (case page_waitForSelector w url ''.markdown table'' of
                          Inl _ \<Rightarrow> False
                        | Inr _ \<Rightarrow> True);
               calls = [Goto url, Settle 3000, WaitForSelector ''.markdown table'' found, Content]
           in case page_content w url of
                Inl e \<Rightarrow> (calls, Inl e)
              | Inr html \<Rightarrow> (calls, Inr (status_or_0 resp, load w html))))"

text \<open>The \<^verbatim>\<open>catch\<close> block of \<open>render\<close>: the error is logged, the URL is fetched.\<close>

definition render_catch :: "world \<Rightarrow> string \<Rightarrow> js_error \<Rightarrow> event list \<times> render_result" where
  "render_catch w url err =
     (case fetch w url of
        Inl e \<Rightarrow> ([ConsoleError url err, Fetch url], Inl e)
      | Inr resp \<Rightarrow>
          (case resp_text resp of
             Inl e \<Rightarrow> ([ConsoleError url err, Fetch url], Inl e)
           | Inr html \<Rightarrow> ([ConsoleError url err, Fetch url], Inr (resp_status resp, load w html))))"

definition render :: "world \<Rightarrow> string \<Rightarrow> event list \<times> render_result" where
  "render w path =
     (case portPromise w of
        Inl e \<Rightarrow> ([], Inl e)
      | Inr port \<Rightarrow>
          (let url = render_url port path
           in case render_try w url of
                (evs, Inr r) \<Rightarrow> (evs, Inr r)
              | (evs, Inl err) \<Rightarrow>
                  (case render_catch w url err of (evs', r) \<Rightarrow> (evs @ evs', r))))"

section \<open>Fixed scenarios\<close>

datatype failure =
    Thrown js_error
  | NotToBe int int
  | NotToMatch string string

type_synonym test_result = "failure + unit"

text \<open>\<^verbatim>\<open>expect(x).toBe(y)\<close> on numbers.\<close>

definition expect_toBe :: "int \<Rightarrow> int \<Rightarrow> test_result" where
  "expect_toBe received expected =
     (if received = expected then Inr () else Inl (NotToBe received expected))"

text \<open>
  \<^verbatim>\<open>expect(s).toMatch(p)\<close>, for a string \<open>p\<close> and for a regular expression made of the
  literal text \<open>p\<close>: \<open>s\<close> contains \<open>p\<close>.
\<close>

definition expect_toMatch :: "string \<Rightarrow> string \<Rightarrow> test_result" where
  "expect_toMatch received expected =
     (if includes_str received expected then Inr () else Inl (NotToMatch received expected))"

text \<open>One statement of a test after another: the first failure ends the test.\<close>

definition and_then :: "test_result \<Rightarrow> test_result \<Rightarrow> test_result" where
  "and_then a b = (case a of Inl f \<Rightarrow> Inl f | Inr _ \<Rightarrow> b)"

text \<open>\<^verbatim>\<open>$('title').first().text()\<close> and \<^verbatim>\<open>$('h1').text()\<close>\<close>

definition title_first_text :: "document \<Rightarrow> string" where
  "title_first_text doc = (case titles doc of [] \<Rightarrow> [] | t # _ \<Rightarrow> t)"

definition h1_text :: "document \<Rightarrow> string" where
  "h1_text doc = concat (h1s doc)"

text \<open>The expected phrases of the Chinese pages, in UTF-8.\<close>

definition phrase_overview_zh :: string where
  "phrase_overview_zh =
     [CHR 0xE7, CHR 0xBB, CHR 0x84, CHR 0xE4, CHR 0xBB, CHR 0xB6,
      CHR 0xE6, CHR 0x80, CHR 0xBB, CHR 0xE8, CHR 0xA7, CHR 0x88]"

definition phrase_resources_zh :: string where
  "phrase_resources_zh = [CHR 0xE8, CHR 0xB5, CHR 0x84, CHR 0xE6, CHR 0xBA, CHR 0x90]"

text \<open>The body of the two home page tests, which differ in the path only.\<close>

definition basic_page :: "world \<Rightarrow> string \<Rightarrow> test_result" where
  "basic_page w path =
     (case snd (render w path) of
        Inl e \<Rightarrow> Inl (Thrown e)
      | Inr (status, doc) \<Rightarrow>
          and_then (expect_toBe status 200)
            (let title = title_first_text doc
             in if title \<noteq> [] \<and> includes_str title ''Ant Design''
                then expect_toMatch title ''Ant Design''
                else Inr ()))"

text \<open>The body of the overview and resources tests, which differ in path and phrase.\<close>

definition heading_page :: "world \<Rightarrow> string \<Rightarrow> string \<Rightarrow> test_result" where
  "heading_page w path phrase =
     (case snd (render w path) of
        Inl e \<Rightarrow> Inl (Thrown e)
      | Inr (status, doc) \<Rightarrow>
          and_then (expect_toBe status 200)
            (let h1Text = h1_text doc
             in if h1Text \<noteq> [] then expect_toMatch h1Text phrase else Inr ()))"

definition Basic_Pages_en :: "world \<Rightarrow> test_result" where
  "Basic_Pages_en w = basic_page w ''/''"

definition Basic_Pages_zh :: "world \<Rightarrow> test_result" where
  "Basic_Pages_zh w = basic_page w ''/index-cn''"

definition Overview_en :: "world \<Rightarrow> test_result" where
  "Overview_en w = heading_page w ''/components/overview'' ''Overview''"

definition Overview_zh :: "world \<Rightarrow> test_result" where
  "Overview_zh w = heading_page w ''/components/overview-cn'' phrase_overview_zh"

definition Resource_en :: "world \<Rightarrow> test_result" where
  "Resource_en w = heading_page w ''/docs/resources'' ''Resources''"

definition Resource_zh :: "world \<Rightarrow> test_result" where
  "Resource_zh w = heading_page w ''/docs/resources-cn'' phrase_resources_zh"

text \<open>
  A world for examples: the browser answers every navigation with the status \<open>st\<close>, the
  selector never appears, and every page parses to \<open>doc\<close>; the plain fetch is refused.
\<close>

definition browser_world :: "int \<Rightarrow> document \<Rightarrow> world" where
  "browser_world st doc =
     \<lparr> portPromise = Inr 3000,
       page_goto = (\<lambda>url. Inr (Some \<lparr> response_status = st \<rparr>)),
       page_waitForSelector = (\<lambda>url sel. Inl (JsError ''TimeoutError'')),
       page_content = (\<lambda>url. Inr ''<html></html>''),
       fetch = (\<lambda>url. Inl (JsError ''ECONNREFUSED'')),
       load = (\<lambda>html. doc) \<rparr>"

text \<open>
  Another: the navigation times out, and the plain fetch answers with the status \<open>st\<close>
  and the body \<open>body\<close>, which parses to a document with that one heading.
\<close>

definition fetch_world :: "int \<Rightarrow> string \<Rightarrow> world" where
  "fetch_world st body =
     \<lparr> portPromise = Inr 3000,
       page_goto = (\<lambda>url. Inl (JsError ''TimeoutError'')),
       page_waitForSelector = (\<lambda>url sel. Inl (JsError ''TimeoutError'')),
       page_content = (\<lambda>url. Inl (JsError ''detached'')),
       fetch = (\<lambda>url. Inr \<lparr> resp_status = st, resp_text = Inr body \<rparr>),
       load = (\<lambda>html. \<lparr> titles = [], h1s = [html], markdown_tables = 0 \<rparr>) \<rparr>"

section \<open>Per-component scenarios\<close>

text \<open>
  A registered test: its name, the loop variable \<^verbatim>\<open>component\<close> it closes over, and the
  page it passes to \<^verbatim>\<open>expectComponent\<close>.
\<close>

record scenario =
  sc_name :: string
  sc_component :: string
  sc_page :: string

definition zh_scenario :: "string \<Rightarrow> scenario" where
  "zh_scenario component =
     \<lparr> sc_name = ''Component '' @ component @ '' zh Page'',
       sc_component = component,
       sc_page = component @ ''-cn'' \<rparr>"

definition en_scenario :: "string \<Rightarrow> scenario" where
  "en_scenario component =
     \<lparr> sc_name = ''Component '' @ component @ '' en Page'',
       sc_component = component,
       sc_page = component \<rparr>"

text \<open>The loop \<^verbatim>\<open>for (const component of components)\<close>, in registration order.\<close>

fun component_scenarios :: "string list \<Rightarrow> scenario list" where
  "component_scenarios [] = []"
| "component_scenarios (component # rest) =
     (if length (split_on (CHR ''/'') component) < 3
      then zh_scenario component # en_scenario component # component_scenarios rest
      else component_scenarios rest)"

section \<open>Teardown\<close>

datatype resource = Open | Closed

text \<open>
  The variables \<^verbatim>\<open>browser\<close> and \<^verbatim>\<open>server\<close> of the suite: \<open>None\<close> while undefined
  (setup never assigned them). A call of \<^verbatim>\<open>close\<close> that throws leaves the resource
  open.
\<close>

record session =
  browser :: "resource option"
  server :: "resource option"

text \<open>
  \<^verbatim>\<open>afterAll\<close>: \<open>browser_close\<close> and \<open>server_close\<close> say whether the two calls of
  \<^verbatim>\<open>close\<close> throw. The statements run in order; an error thrown ends the hook.
\<close>

definition afterAll ::
  "(js_error + unit) \<Rightarrow> (js_error + unit) \<Rightarrow> session \<Rightarrow> (js_error + unit) \<times> session" where
  "afterAll browser_close server_close s =
     (case (case browser s of
              None \<Rightarrow> Inr s
            | Some _ \<Rightarrow>
                (case browser_close of
                   Inl e \<Rightarrow> Inl e
                 | Inr _ \<Rightarrow> Inr (s\<lparr> browser := Some Closed \<rparr>))) of
        Inl e \<Rightarrow> (Inl e, s)
      | Inr s1 \<Rightarrow>
          (case server s1 of
             None \<Rightarrow> (Inr (), s1)
           | Some _ \<Rightarrow>
               (case server_close of
                  Inl e \<Rightarrow> (Inl e, s1)
                | Inr _ \<Rightarrow> (Inr (), s1\<lparr> server := Some Closed \<rparr>))))"

definition released :: "resource option \<Rightarrow> bool" where
  "released r = (r \<noteq> Some Open)"


section \<open>The File polyfill\<close>

text \<open>
  The setup file of the site tests installs stand-ins for \<^verbatim>\<open>File\<close> and
  \<^verbatim>\<open>FormData\<close>. The size of a file counts encoded bytes, so here a JavaScript string
  is the list of its UTF-16 code units, and a part of a file that is not a string is an
  \<^verbatim>\<open>ArrayBuffer\<close>, the list of its bytes.
\<close>

type_synonym js_string = "16 word list"

type_synonym bytes = "8 word list"

datatype blobPart = StringBit js_string | BufferBit bytes

definition js :: "string \<Rightarrow> js_string" where
  "js s = map (\<lambda>c. of_nat (of_char c)) s"

definition is_high_surrogate :: "16 word \<Rightarrow> bool" where
  "is_high_surrogate c = (0xD800 \<le> c \<and> c \<le> 0xDBFF)"

definition is_low_surrogate :: "16 word \<Rightarrow> bool" where
  "is_low_surrogate c = (0xDC00 \<le> c \<and> c \<le> 0xDFFF)"

definition utf8_of_code_point :: "nat \<Rightarrow> bytes" where
  "utf8_of_code_point n =
     (if n < 0x80 then [of_nat n]
      else if n < 0x800 then [of_nat (0xC0 + n div 0x40), of_nat (0x80 + n mod 0x40)]
      else if n < 0x10000 then
        [of_nat (0xE0 + n div 0x1000), of_nat (0x80 + n div 0x40 mod 0x40),
         of_nat (0x80 + n mod 0x40)]
      else
        [of_nat (0xF0 + n div 0x40000), of_nat (0x80 + n div 0x1000 mod 0x40),
         of_nat (0x80 + n div 0x40 mod 0x40), of_nat (0x80 + n mod 0x40)])"

definition code_point_of_unit :: "16 word \<Rightarrow> nat" where
  "code_point_of_unit c =
     (if is_high_surrogate c \<or> is_low_surrogate c then 0xFFFD else unat c)"

text \<open>
  \<^verbatim>\<open>new TextEncoder().encode(s)\<close>: UTF-8, a surrogate pair is one code point of four
  bytes, a surrogate on its own is encoded as U+FFFD.
\<close>

fun TextEncoder_encode :: "js_string \<Rightarrow> bytes" where
  "TextEncoder_encode [] = []"
| "TextEncoder_encode [c] = utf8_of_code_point (code_point_of_unit c)"
| "TextEncoder_encode (c # d # rest) =
     (if is_high_surrogate c \<and> is_low_surrogate d
      then utf8_of_code_point (0x10000 + (unat c - 0xD800) * 0x400 + (unat d - 0xDC00))
           @ TextEncoder_encode rest
      else utf8_of_code_point (code_point_of_unit c) @ TextEncoder_encode (d # rest))"

record file_options =
  opt_type :: "js_string option"
  opt_lastModified :: "int option"

record MockFile =
  file_bits :: "blobPart list"
  file_name :: js_string
  file_type :: js_string
  file_lastModified :: int
  file_size :: nat

text \<open>The callback of \<^verbatim>\<open>bits.reduce\<close> in the constructor.\<close>

definition add_bit_size :: "nat \<Rightarrow> blobPart \<Rightarrow> nat" where
  "add_bit_size acc part =
     (case part of
        StringBit s \<Rightarrow> acc + length (TextEncoder_encode s)
      | BufferBit b \<Rightarrow> acc + length b)"

text \<open>The constructor; \<open>now\<close> is what \<^verbatim>\<open>Date.now()\<close> returns.\<close>

definition new_MockFile :: "int \<Rightarrow> blobPart list \<Rightarrow> js_string \<Rightarrow> file_options \<Rightarrow> MockFile" where
  "new_MockFile now bits filename options =
     \<lparr> file_bits = bits,
       file_name = filename,
       file_type = (case opt_type options of None \<Rightarrow> [] | Some t \<Rightarrow> if t = [] then [] else t),
       file_lastModified =
         (case opt_lastModified options of None \<Rightarrow> now | Some m \<Rightarrow> if m = 0 then now else m),
       file_size = foldl add_bit_size 0 bits \<rparr>"

text \<open>
  \<^verbatim>\<open>bits.join('')\<close> converts every element to a string: a string is itself, an
  \<^verbatim>\<open>ArrayBuffer\<close> prints as \<^verbatim>\<open>[object ArrayBuffer]\<close>.
\<close>

definition toString_bit :: "blobPart \<Rightarrow> js_string" where
  "toString_bit part = (case part of StringBit s \<Rightarrow> s | BufferBit _ \<Rightarrow> js ''[object ArrayBuffer]'')"

definition file_text :: "MockFile \<Rightarrow> js_string" where
  "file_text f = concat (map toString_bit (file_bits f))"

text \<open>
  The length the statement on the size speaks of, defined on its own and not through the
  encoder: the number of bytes UTF-8 needs for the text of a string. A code unit below
  U+0080 takes one byte, one below U+0800 two and any other three (a surrogate on its
  own stands for U+FFFD); a surrogate pair is one code point beyond U+FFFF and takes
  four.
\<close>

definition unit_width :: "16 word \<Rightarrow> nat" where
  "unit_width c = (if c < 0x80 then 1 else if c < 0x800 then 2 else 3)"

fun utf8_length :: "js_string \<Rightarrow> nat" where
  "utf8_length [] = 0"
| "utf8_length [c] = unit_width c"
| "utf8_length (c # d # rest) =
     (if is_high_surrogate c \<and> is_low_surrogate d then 4 + utf8_length rest
      else unit_width c + utf8_length (d # rest))"

definition part_byte_length :: "blobPart \<Rightarrow> nat" where
  "part_byte_length part =
     (case part of StringBit s \<Rightarrow> utf8_length s | BufferBit b \<Rightarrow> length b)"

section \<open>The FormData polyfill\<close>

text \<open>
  \<^verbatim>\<open>_data\<close> is a JavaScript \<^verbatim>\<open>Map\<close> from names to arrays of values. A \<^verbatim>\<open>Map\<close>
  keeps its keys in insertion order, and setting an existing key keeps its place: an
  association list with at most one entry per key.
\<close>

type_synonym ('k, 'v) js_map = "('k \<times> 'v) list"

fun map_set :: "'k \<Rightarrow> 'v \<Rightarrow> ('k, 'v) js_map \<Rightarrow> ('k, 'v) js_map" where
  "map_set k v [] = [(k, v)]"
| "map_set k v ((k', v') # rest) =
     (if k' = k then (k, v) # rest else (k', v') # map_set k v rest)"

definition map_get :: "('k, 'v) js_map \<Rightarrow> 'k \<Rightarrow> 'v option" where
  "map_get m k = map_of m k"

definition map_has :: "('k, 'v) js_map \<Rightarrow> 'k \<Rightarrow> bool" where
  "map_has m k = (map_of m k \<noteq> None)"

definition map_delete :: "'k \<Rightarrow> ('k, 'v) js_map \<Rightarrow> ('k, 'v) js_map" where
  "map_delete k m = filter (\<lambda>entry. fst entry \<noteq> k) m"

type_synonym ('k, 'v) MockFormData = "('k, 'v list) js_map"

text \<open>What a method returns: \<^verbatim>\<open>null\<close>, \<^verbatim>\<open>undefined\<close> or a value.\<close>

datatype 'v js_value = Null | Undefined | Val 'v

definition new_MockFormData :: "('k, 'v) MockFormData" where
  "new_MockFormData = []"

definition fd_append :: "('k, 'v) MockFormData \<Rightarrow> 'k \<Rightarrow> 'v \<Rightarrow> ('k, 'v) MockFormData" where
  "fd_append d name v =
     (let d1 = (if \<not> map_has d name then map_set name [] d else d)
      in case map_get d1 name of
           None \<Rightarrow> d1
         | Some vs \<Rightarrow> map_set name (vs @ [v]) d1)"

definition fd_get :: "('k, 'v) MockFormData \<Rightarrow> 'k \<Rightarrow> 'v js_value" where
  "fd_get d name =
     (case map_get d name of
        None \<Rightarrow> Null
      | Some vs \<Rightarrow> (case vs of [] \<Rightarrow> Undefined | x # _ \<Rightarrow> Val x))"

definition fd_getAll :: "('k, 'v) MockFormData \<Rightarrow> 'k \<Rightarrow> 'v list" where
  "fd_getAll d name = (case map_get d name of None \<Rightarrow> [] | Some vs \<Rightarrow> vs)"

definition fd_has :: "('k, 'v) MockFormData \<Rightarrow> 'k \<Rightarrow> bool" where
  "fd_has d name = map_has d name"

definition fd_delete :: "('k, 'v) MockFormData \<Rightarrow> 'k \<Rightarrow> ('k, 'v) MockFormData" where
  "fd_delete d name = map_delete name d"

definition fd_set :: "('k, 'v) MockFormData \<Rightarrow> 'k \<Rightarrow> 'v \<Rightarrow> ('k, 'v) MockFormData" where
  "fd_set d name v = map_set name [v] d"

definition fd_keys :: "('k, 'v) MockFormData \<Rightarrow> 'k list" where
  "fd_keys d = map fst d"

definition fd_values :: "('k, 'v) MockFormData \<Rightarrow> 'v list" where
  "fd_values d = concat (map snd d)"

text \<open>The calls that change a form, and a form after a sequence of them.\<close>

datatype ('k, 'v) fd_call = Append 'k 'v | SetTo 'k 'v | Delete 'k

fun fd_do :: "('k, 'v) MockFormData \<Rightarrow> ('k, 'v) fd_call \<Rightarrow> ('k, 'v) MockFormData" where
  "fd_do d (Append name v) = fd_append d name v"
| "fd_do d (SetTo name v) = fd_set d name v"
| "fd_do d (Delete name) = fd_delete d name"

definition fd_after :: "('k, 'v) fd_call list \<Rightarrow> ('k, 'v) MockFormData" where
  "fd_after calls = foldl fd_do new_MockFormData calls"

text \<open>The name a call appends to or sets, if it does.\<close>

fun written_name :: "('k, 'v) fd_call \<Rightarrow> 'k option" where
  "written_name (Append name v) = Some name"
| "written_name (SetTo name v) = Some name"
| "written_name (Delete name) = None"

section \<open>Properties of the component name\<close>

lemma handleComponentName_button_cn:
  "handleComponentName ''components/button-cn'' = ''button''"
  by code_simp

lemma handleComponentName_Button:
  "handleComponentName ''components/Button'' = ''button''"
  by code_simp

text \<open>
  C3: \<open>handleComponentName\<close> returns the last segment of the identifier in lower case
  with the locale marker \<^verbatim>\<open>-cn\<close> and the hyphens of the name removed. Each of the two
  calls of \<^verbatim>\<open>replace\<close> takes a string pattern and so removes one occurrence: of a
  name with two hyphens the second hyphen stays.
\<close>

theorem handleComponentName_keeps_second_hyphen:
  "handleComponentName ''components/date-range-picker'' = ''daterange-picker''"
  by code_simp

section \<open>Properties of the regular expression\<close>

lemma lc_char_idem [simp]: "toLowerCase_char (toLowerCase_char c) = toLowerCase_char c"
  by (auto simp: toLowerCase_char_def upper_letters_def lower_letters_def)

lemma toLowerCase_append [simp]: "toLowerCase (a @ b) = toLowerCase a @ toLowerCase b"
  by (simp add: toLowerCase_def)

lemma toLowerCase_length [simp]: "length (toLowerCase s) = length s"
  by (simp add: toLowerCase_def)

lemma toLowerCase_split:
  "toLowerCase s = a @ b \<Longrightarrow> \<exists>u v. s = u @ v \<and> toLowerCase u = a \<and> toLowerCase v = b"
  unfolding toLowerCase_def by (auto simp: map_eq_append_conv)

lemma set_match_Lit:
  "set (rx_match (Lit p) s) = {r. \<exists>m. s = m @ r \<and> toLowerCase m = toLowerCase p}"
proof -
  have "\<exists>m. s = m @ drop (length p) s \<and> toLowerCase m = toLowerCase p"
    if "toLowerCase (take (length p) s) = toLowerCase p"
    using that by (intro exI [of _ "take (length p) s"]) simp
  moreover have "toLowerCase (take (length p) (m @ r)) = toLowerCase p \<and> drop (length p) (m @ r) = r"
    if "toLowerCase m = toLowerCase p" for m r
  proof -
    have "length m = length p" using that by (metis toLowerCase_length)
    then show ?thesis using that by simp
  qed
  ultimately show ?thesis by auto
qed

lemma set_match_OneOf:
  "set (rx_match (OneOf cs) s) = {r. \<exists>c. s = c # r \<and> toLowerCase_char c \<in> set (toLowerCase cs)}"
  by (cases s) auto

lemma set_match_Seq:
  "set (rx_match (Seq a b) s) = (\<Union>x \<in> set (rx_match a s). set (rx_match b x))"
  by simp

lemma set_match_End: "set (rx_match EndAnchor s) = (if s = [] then {[]} else {})"
  by simp



lemma toLowerCase_Nil [simp]: "toLowerCase [] = []"
  by (simp add: toLowerCase_def)

lemma toLowerCase_Cons: "toLowerCase (c # s) = toLowerCase_char c # toLowerCase s"
  by (simp add: toLowerCase_def)

lemma toLowerCase_eq_Nil [simp]: "toLowerCase s = [] \<longleftrightarrow> s = []"
  by (simp add: toLowerCase_def)

lemma lower_literals:
  "toLowerCase ''index'' = ''index''"
  "toLowerCase ''.$tab-design'' = ''.$tab-design''"
  "toLowerCase ''.zh-cn'' = ''.zh-cn''"
  "toLowerCase ''.en-us'' = ''.en-us''"
  "toLowerCase ''.md'' = ''.md''"
  "toLowerCase [CHR ''/'', backslash] = [CHR ''/'', backslash]"
  by (simp_all add: toLowerCase_def toLowerCase_char_def upper_letters_def lower_letters_def
      backslash_def)

lemma set_match_Lit_lower:
  "toLowerCase p = p \<Longrightarrow> set (rx_match (Lit p) s) = {r. \<exists>m. s = m @ r \<and> toLowerCase m = p}"
  using set_match_Lit [of p s] by simp

lemmas match_simps =
  set_match_Lit_lower [OF lower_literals(1)] set_match_Lit_lower [OF lower_literals(2)]
  set_match_Lit_lower [OF lower_literals(3)] set_match_Lit_lower [OF lower_literals(4)]
  set_match_Lit_lower [OF lower_literals(5)]

lemma match_index_group:
  "set (rx_match (Opt (Seq (OneOf [CHR ''/'', backslash]) (Lit ''index''))) s) =
     {r. \<exists>i. s = i @ r \<and> toLowerCase i \<in> {[], ''/index'', backslash # ''index''}}"
  (is "?L = ?R")
proof
  have body: "set (rx_match (Seq (OneOf [CHR ''/'', backslash]) (Lit ''index'')) s) =
      {r. \<exists>c m. s = c # m @ r \<and> toLowerCase_char c \<in> {CHR ''/'', backslash}
                 \<and> toLowerCase m = ''index''}"
    unfolding set_match_Seq set_match_OneOf lower_literals(6) match_simps by auto
  have opt: "?L = set (rx_match (Seq (OneOf [CHR ''/'', backslash]) (Lit ''index'')) s) \<union> {s}"
    by simp
  show "?L \<subseteq> ?R"
  proof
    fix r assume "r \<in> ?L"
    then consider "r = s"
      | c m where "s = c # m @ r" "toLowerCase_char c \<in> {CHR ''/'', backslash}"
          "toLowerCase m = ''index''"
      unfolding opt body by auto
    then show "r \<in> ?R"
    proof cases
      case 1
      then show ?thesis by simp
    next
      case 2
      then have "s = (c # m) @ r \<and> toLowerCase (c # m) \<in> {[], ''/index'', backslash # ''index''}"
        by (auto simp: toLowerCase_Cons)
      then show ?thesis by blast
    qed
  qed
  show "?R \<subseteq> ?L"
  proof
    fix r assume "r \<in> ?R"
    then obtain i where i: "s = i @ r" "toLowerCase i \<in> {[], ''/index'', backslash # ''index''}"
      by blast
    show "r \<in> ?L"
    proof (cases i)
      case Nil
      then show ?thesis using i unfolding opt by simp
    next
      case (Cons c m)
      then have "toLowerCase_char c \<in> {CHR ''/'', backslash} \<and> toLowerCase m = ''index''"
        using i(2) by (auto simp: toLowerCase_Cons)
      then show ?thesis using i(1) Cons unfolding opt body by auto
    qed
  qed
qed

lemma match_tab_group:
  "set (rx_match (Opt (Lit ''.$tab-design'')) s) =
     {r. \<exists>t. s = t @ r \<and> toLowerCase t \<in> {[], ''.$tab-design''}}"
proof -
  have "set (rx_match (Opt (Lit ''.$tab-design'')) s) = set (rx_match (Lit ''.$tab-design'') s) \<union> {s}"
    by simp
  then show ?thesis unfolding match_simps by auto
qed

lemma match_locale_group:
  "set (rx_match (Opt (Alt (Lit ''.zh-cn'') (Lit ''.en-us''))) s) =
     {r. \<exists>l. s = l @ r \<and> toLowerCase l \<in> {[], ''.zh-cn'', ''.en-us''}}"
proof -
  have "set (rx_match (Opt (Alt (Lit ''.zh-cn'') (Lit ''.en-us''))) s)
      = set (rx_match (Lit ''.zh-cn'') s) \<union> set (rx_match (Lit ''.en-us'') s) \<union> {s}"
    by simp
  then show ?thesis unfolding match_simps by auto
qed

lemma match_md_end:
  "set (rx_match (Seq (Lit ''.md'') EndAnchor) s) = {r. r = [] \<and> toLowerCase s = ''.md''}"
  unfolding set_match_Seq match_simps set_match_End by auto

text \<open>What the whole expression accepts at one position, and what it leaves.\<close>

lemma suffix_regex_matches:
  "set (rx_match suffix_regex s) =
     {r. r = [] \<and> (\<exists>i t l m. s = i @ t @ l @ m
            \<and> toLowerCase i \<in> {[], ''/index'', backslash # ''index''}
            \<and> toLowerCase t \<in> {[], ''.$tab-design''}
            \<and> toLowerCase l \<in> {[], ''.zh-cn'', ''.en-us''}
            \<and> toLowerCase m = ''.md'')}"
  unfolding suffix_regex_def set_match_Seq [of "Opt _"] match_index_group match_tab_group
    match_locale_group match_md_end
  by blast

lemma set_stripped_suffixes:
  "set stripped_suffixes =
     {i @ t @ l @ ''.md'' | i t l.
        i \<in> {[], ''/index'', backslash # ''index''} \<and> t \<in> {[], ''.$tab-design''}
        \<and> l \<in> {[], ''.zh-cn'', ''.en-us''}}"
  unfolding stripped_suffixes_def
  by (simp only: set_concat set_map list.set image_insert image_empty Union_insert Union_empty
      Un_empty_right) blast

lemma suffix_regex_matches_iff:
  "rx_match suffix_regex s \<noteq> [] \<longleftrightarrow> toLowerCase s \<in> set stripped_suffixes"
proof
  assume "rx_match suffix_regex s \<noteq> []"
  then have "set (rx_match suffix_regex s) \<noteq> {}" by simp
  then obtain i t l m where "s = i @ t @ l @ m"
      "toLowerCase i \<in> {[], ''/index'', backslash # ''index''}"
      "toLowerCase t \<in> {[], ''.$tab-design''}"
      "toLowerCase l \<in> {[], ''.zh-cn'', ''.en-us''}"
      "toLowerCase m = ''.md''"
    unfolding suffix_regex_matches by blast
  then show "toLowerCase s \<in> set stripped_suffixes"
    unfolding set_stripped_suffixes by (simp only: toLowerCase_append) blast
next
  assume "toLowerCase s \<in> set stripped_suffixes"
  then obtain i t l where f: "toLowerCase s = i @ t @ l @ ''.md''"
      "i \<in> {[], ''/index'', backslash # ''index''}" "t \<in> {[], ''.$tab-design''}"
      "l \<in> {[], ''.zh-cn'', ''.en-us''}"
    unfolding set_stripped_suffixes by blast
  from toLowerCase_split [OF f(1)] obtain si r1
    where 1: "s = si @ r1" "toLowerCase si = i" "toLowerCase r1 = t @ l @ ''.md''" by blast
  from toLowerCase_split [OF 1(3)] obtain st r2
    where 2: "r1 = st @ r2" "toLowerCase st = t" "toLowerCase r2 = l @ ''.md''" by blast
  from toLowerCase_split [OF 2(3)] obtain sl sm
    where 3: "r2 = sl @ sm" "toLowerCase sl = l" "toLowerCase sm = ''.md''" by blast
  have "[] \<in> set (rx_match suffix_regex s)"
    unfolding suffix_regex_matches using 1 2 3 f by blast
  then show "rx_match suffix_regex s \<noteq> []" by auto
qed

lemma suffix_regex_rest: "r \<in> set (rx_match suffix_regex s) \<Longrightarrow> r = []"
  unfolding suffix_regex_matches by simp

lemma suffix_regex_hd:
  "rx_match suffix_regex s = r # rs \<Longrightarrow> r = []"
  using suffix_regex_rest [of r s] by simp

text \<open>The general facts on removing the first match of an expression anchored at the end.\<close>

lemma rx_remove_first_no_match:
  "(\<And>k. k \<le> length y \<Longrightarrow> rx_match r (drop k y) = []) \<Longrightarrow> rx_remove_first r y = y"
proof (induction y)
  case Nil
  then show ?case using Nil [of 0] by simp
next
  case (Cons c y)
  have "rx_match r (c # y) = []" using Cons.prems [of 0] by simp
  moreover have "rx_remove_first r y = y"
  proof (rule Cons.IH)
    fix k assume "k \<le> length y"
    then show "rx_match r (drop k y) = []" using Cons.prems [of "Suc k"] by simp
  qed
  ultimately show ?case by simp
qed

lemma rx_remove_first_shorter:
  assumes "\<And>s x xs. rx_match r s = x # xs \<Longrightarrow> x = []"
    and "rx_match r [] = []"
    and "k \<le> length y" and "rx_match r (drop k y) \<noteq> []"
  shows "length (rx_remove_first r y) < length y"
  using assms(3,4)
proof (induction y arbitrary: k)
  case Nil
  then show ?case using assms(2) by simp
next
  case (Cons c y)
  show ?case
  proof (cases "rx_match r (c # y)")
    case Nil
    then have "k \<noteq> 0" using Cons.prems by (cases k) auto
    then obtain k' where k': "k = Suc k'" by (cases k) auto
    then have "length (rx_remove_first r y) < length y"
      using Cons.IH [of k'] Cons.prems by simp
    then show ?thesis using Nil by simp
  next
    case (Cons x xs)
    then have "x = []" using assms(1) by blast
    then show ?thesis using Cons by simp
  qed
qed


lemma rx_remove_first_is_take:
  assumes "\<And>s x xs. rx_match r s = x # xs \<Longrightarrow> x = []"
  shows "\<exists>k. rx_remove_first r y = take k y"
proof (induction y)
  case Nil
  have "rx_remove_first r [] = []"
    using assms [of "[]"] by (cases "rx_match r []") auto
  then show ?case by simp
next
  case (Cons c y)
  then obtain k where k: "rx_remove_first r y = take k y" by blast
  show ?case
  proof (cases "rx_match r (c # y)")
    case Nil
    then have "rx_remove_first r (c # y) = take (Suc k) (c # y)" using k by simp
    then show ?thesis by blast
  next
    case (Cons x xs)
    then have "x = []" using assms by blast
    then have "rx_remove_first r (c # y) = take 0 (c # y)" using Cons by simp
    then show ?thesis by blast
  qed
qed


lemma endsWith_iff: "endsWith x p \<longleftrightarrow> (\<exists>u. x = u @ p)"
proof
  assume "endsWith x p"
  then have t: "take (length p) (rev x) = rev p"
    by (simp add: endsWith_def startsWith_def)
  have "rev x = take (length p) (rev x) @ drop (length p) (rev x)" by simp
  then have "rev x = rev p @ drop (length p) (rev x)" using t by simp
  then have "rev (rev x) = rev (rev p @ drop (length p) (rev x))" by (rule arg_cong)
  then have "x = rev (drop (length p) (rev x)) @ p" by simp
  then show "\<exists>u. x = u @ p" by blast
next
  assume "\<exists>u. x = u @ p"
  then show "endsWith x p" by (auto simp: endsWith_def startsWith_def)
qed

lemma endsWith_drop: "endsWith (drop k x) p \<Longrightarrow> endsWith x p"
proof -
  assume "endsWith (drop k x) p"
  then obtain u where "drop k x = u @ p" unfolding endsWith_iff by blast
  then have "x = (take k x @ u) @ p" by (metis append_take_drop_id append_assoc)
  then show ?thesis unfolding endsWith_iff by blast
qed

lemma toLowerCase_drop: "toLowerCase (drop k s) = drop k (toLowerCase s)"
  by (simp add: toLowerCase_def drop_map)






lemma no_backslash_replaced: "backslash \<notin> set (replace_backslashes s)"
  by (auto simp: replace_backslashes_def backslash_def)

lemma replace_backslashes_id: "backslash \<notin> set s \<Longrightarrow> replace_backslashes s = s"
  by (induction s) (auto simp: replace_backslashes_def)


lemma stripped_suffixes_md: "\<forall>f \<in> set stripped_suffixes. endsWith f ''.md''"
  by code_simp

lemma empty_not_stripped: "[] \<notin> set stripped_suffixes"
  by code_simp

lemma md_stripped: "''.md'' \<in> set stripped_suffixes"
  by code_simp





section \<open>Properties of the page inventory\<close>




lemma normalizePath_is_take: "\<exists>k. normalizePath p = take k (replace_backslashes p)"
  unfolding normalizePath_def Let_def
  by (rule rx_remove_first_is_take) (rule suffix_regex_hd)

lemma normalizePath_no_backslash: "backslash \<notin> set (normalizePath p)"
proof -
  obtain k where "normalizePath p = take k (replace_backslashes p)"
    using normalizePath_is_take by blast
  then show ?thesis using no_backslash_replaced [of p] by (auto dest: in_set_takeD)
qed

lemma strip_fixed_iff:
  "rx_remove_first suffix_regex q = q \<longleftrightarrow> \<not> endsWith (toLowerCase q) ''.md''"
proof
  assume fixed: "rx_remove_first suffix_regex q = q"
  show "\<not> endsWith (toLowerCase q) ''.md''"
  proof
    assume "endsWith (toLowerCase q) ''.md''"
    then obtain u where u: "toLowerCase q = u @ ''.md''" unfolding endsWith_iff by blast
    then obtain a b where ab: "q = a @ b" "toLowerCase b = ''.md''"
      using toLowerCase_split by blast
    have "drop (length a) q = b" using ab(1) by simp
    then have "rx_match suffix_regex (drop (length a) q) \<noteq> []"
      unfolding suffix_regex_matches_iff using md_stripped ab(2) by simp
    moreover have "length a \<le> length q" using ab by simp
    moreover have "rx_match suffix_regex [] = []"
      using empty_not_stripped suffix_regex_matches_iff [of "[]"] by simp
    ultimately have "length (rx_remove_first suffix_regex q) < length q"
      using suffix_regex_hd by (intro rx_remove_first_shorter [where k = "length a"]) auto
    then show False using fixed by simp
  qed
next
  assume nomd: "\<not> endsWith (toLowerCase q) ''.md''"
  show "rx_remove_first suffix_regex q = q"
  proof (rule rx_remove_first_no_match)
    fix k
    show "rx_match suffix_regex (drop k q) = []"
    proof (rule ccontr)
      assume "rx_match suffix_regex (drop k q) \<noteq> []"
      then have "toLowerCase (drop k q) \<in> set stripped_suffixes"
        by (simp only: suffix_regex_matches_iff)
      then have "endsWith (toLowerCase (drop k q)) ''.md''"
        using stripped_suffixes_md by blast
      then have "endsWith (toLowerCase q) ''.md''"
        unfolding toLowerCase_drop by (rule endsWith_drop)
      then show False using nomd by simp
    qed
  qed
qed

text \<open>
  C6: normalizing an identifier that is already normalized returns it unchanged. This
  holds exactly when the identifier does not itself end in \<^verbatim>\<open>.md\<close> (in any letter
  case): the expression strips one extension, and a second one is stripped by the second
  pass.
\<close>

theorem normalizePath_idempotent_iff:
  "normalizePath (normalizePath filePath) = normalizePath filePath
     \<longleftrightarrow> \<not> endsWith (toLowerCase (normalizePath filePath)) ''.md''"
proof -
  have "replace_backslashes (normalizePath filePath) = normalizePath filePath"
    using normalizePath_no_backslash by (rule replace_backslashes_id)
  then have "normalizePath (normalizePath filePath)
      = rx_remove_first suffix_regex (normalizePath filePath)"
    by (simp add: normalizePath_def [of "normalizePath filePath"])
  then show ?thesis using strip_fixed_iff [of "normalizePath filePath"] by simp
qed

theorem normalizePath_idempotent_iff_witness:
  "normalizePath (normalizePath ''components/button/index.zh-CN.md'')
     = normalizePath ''components/button/index.zh-CN.md''"
proof -
  have "\<not> endsWith (toLowerCase (normalizePath ''components/button/index.zh-CN.md'')) ''.md''"
    by code_simp
  then show ?thesis
    using normalizePath_idempotent_iff [of "''components/button/index.zh-CN.md''"] by simp
qed

text \<open>A discovered path with two extensions: the second pass strips the second one.\<close>

theorem normalizePath_double_md_counterexample:
  "discovered ''components/button/notes.md.md''
   \<and> normalizePath ''components/button/notes.md.md'' = ''components/button/notes.md''
   \<and> normalizePath (normalizePath ''components/button/notes.md.md'') = ''components/button/notes''
   \<and> normalizePath (normalizePath ''components/button/notes.md.md'')
       \<noteq> normalizePath ''components/button/notes.md.md''"
  by code_simp

section \<open>Properties of the per-component scenarios\<close>

lemma uniq_from_distinct_aux:
  "distinct (uniq_from seen xs) \<and> set (uniq_from seen xs) = set xs - set seen"
  by (induction xs arbitrary: seen) auto

lemma distinct_components: "distinct (components files)"
  by (simp add: components_def uniq_def uniq_from_distinct_aux)

lemma component_scenarios_of:
  "c \<notin> set cs \<Longrightarrow> filter (\<lambda>s. sc_component s = c) (component_scenarios cs) = []"
  by (induction cs) (auto simp: zh_scenario_def en_scenario_def)

lemma component_scenarios_distinct:
  "distinct cs \<Longrightarrow>
   filter (\<lambda>s. sc_component s = c) (component_scenarios cs)
     = (if c \<in> set cs \<and> length (split_on (CHR ''/'') c) < 3
        then [zh_scenario c, en_scenario c] else [])"
proof (induction cs)
  case Nil
  then show ?case by simp
next
  case (Cons a cs)
  show ?case
  proof (cases "a = c")
    case True
    then have "c \<notin> set cs" using Cons.prems by simp
    then show ?thesis
      using True by (simp add: component_scenarios_of zh_scenario_def en_scenario_def)
  next
    case False
    then show ?thesis
      using Cons by (simp add: zh_scenario_def en_scenario_def)
  qed
qed

lemma component_scenarios_length:
  "length (component_scenarios cs)
     = 2 * length (filter (\<lambda>c. length (split_on (CHR ''/'') c) < 3) cs)"
  by (induction cs) simp_all

text \<open>
  C7: the identifiers of the inventory with fewer than three segments, and only they,
  get scenarios, and each of them gets exactly two, the one for the page with the suffix
  \<^verbatim>\<open>-cn\<close> and the one for the page itself; so the suite registers twice as many
  scenarios as the inventory has such identifiers.
\<close>

theorem component_scenarios_per_identifier:
  "filter (\<lambda>s. sc_component s = c) (component_scenarios (components files))
     = (if c \<in> set (components files) \<and> length (split_on (CHR ''/'') c) < 3
        then [\<lparr> sc_name = ''Component '' @ c @ '' zh Page'', sc_component = c, sc_page = c @ ''-cn'' \<rparr>,
              \<lparr> sc_name = ''Component '' @ c @ '' en Page'', sc_component = c, sc_page = c \<rparr>]
        else [])
   \<and> length (component_scenarios (components files))
       = 2 * length (filter (\<lambda>c. length (split_on (CHR ''/'') c) < 3) (components files))"
  using component_scenarios_distinct [OF distinct_components, of c files]
  by (simp add: zh_scenario_def en_scenario_def component_scenarios_length)

theorem component_scenarios_per_identifier_witness:
  "filter (\<lambda>s. sc_component s = ''components/button'')
     (component_scenarios (components [''components/button/index.en-US.md'',
        ''components/button/index.zh-CN.md'', ''components/button/design.md'']))
     = [\<lparr> sc_name = ''Component components/button zh Page'',
          sc_component = ''components/button'', sc_page = ''components/button-cn'' \<rparr>,
        \<lparr> sc_name = ''Component components/button en Page'',
          sc_component = ''components/button'', sc_page = ''components/button'' \<rparr>]
   \<and> filter (\<lambda>s. sc_component s = ''components/button/design'')
     (component_scenarios (components [''components/button/index.en-US.md'',
        ''components/button/index.zh-CN.md'', ''components/button/design.md''])) = []"
proof -
  have inv: "components [''components/button/index.en-US.md'',
      ''components/button/index.zh-CN.md'', ''components/button/design.md'']
      = [''components/button'', ''components/button/design'']"
    by code_simp
  have d2: "length (split_on (CHR ''/'') ''components/button'') < 3" by code_simp
  have d3: "\<not> length (split_on (CHR ''/'') ''components/button/design'') < 3" by code_simp
  show ?thesis
    using component_scenarios_per_identifier [of "''components/button''"
        "[''components/button/index.en-US.md'', ''components/button/index.zh-CN.md'',
          ''components/button/design.md'']"]
      component_scenarios_per_identifier [of "''components/button/design''"
        "[''components/button/index.en-US.md'', ''components/button/index.zh-CN.md'',
          ''components/button/design.md'']"]
      d2 d3
    by (simp add: inv)
qed

section \<open>Properties of rendering\<close>

text \<open>
  C1: when the \<^verbatim>\<open>try\<close> block throws and the plain fetch of the same URL succeeds,
  \<open>render\<close> returns the status of the fetch and the document parsed from its body, a
  result of the same form as after a successful navigation.
\<close>

theorem render_fallback_transparent:
  assumes "portPromise w = Inr port"
    and "snd (render_try w (render_url port path)) = Inl err"
    and "fetch w (render_url port path) = Inr resp"
    and "resp_text resp = Inr html"
  shows "render w path =
           (fst (render_try w (render_url port path))
              @ [ConsoleError (render_url port path) err, Fetch (render_url port path)],
            Inr (resp_status resp, load w html))"
  using assms
  by (auto simp add: render_def render_catch_def Let_def split: prod.splits sum.splits)

theorem render_fallback_transparent_witness:
  "portPromise (fetch_world 200 ''<h1>Button</h1>'') = Inr 3000
   \<and> snd (render_try (fetch_world 200 ''<h1>Button</h1>'') (render_url 3000 ''/components/button/''))
       = Inl (JsError ''TimeoutError'')
   \<and> render (fetch_world 200 ''<h1>Button</h1>'') ''/components/button/''
       = ([Goto ''http://127.0.0.1:3000/components/button/'',
           ConsoleError ''http://127.0.0.1:3000/components/button/'' (JsError ''TimeoutError''),
           Fetch ''http://127.0.0.1:3000/components/button/''],
          Inr (200, \<lparr> titles = [], h1s = [''<h1>Button</h1>''], markdown_tables = 0 \<rparr>))"
  using render_fallback_transparent [of "fetch_world 200 ''<h1>Button</h1>''" 3000
      "''/components/button/''" "JsError ''TimeoutError''"
      "\<lparr> resp_status = 200, resp_text = Inr ''<h1>Button</h1>'' \<rparr>" "''<h1>Button</h1>''"]
  by (simp add: fetch_world_def render_try_def render_url_def)

text \<open>
  C2: when the navigation succeeds and the wait for \<^verbatim>\<open>.markdown table\<close> fails, the
  call goes on to read and parse the page content and returns the status of the
  navigation; no error is logged and nothing is fetched. Whatever the content call does,
  the result is the one of a call in which the selector appeared.
\<close>

theorem render_selector_wait_swallowed:
  assumes "portPromise w = Inr port"
    and "page_goto w (render_url port path) = Inr resp"
    and "page_waitForSelector w (render_url port path) ''.markdown table'' = Inl err"
  shows "(\<forall>html. page_content w (render_url port path) = Inr html \<longrightarrow>
            render w path =
              ([Goto (render_url port path), Settle 3000,
                WaitForSelector ''.markdown table'' False, Content],
               Inr (status_or_0 resp, load w html)))
         \<and> snd (render w path)
             = snd (render (w\<lparr> page_waitForSelector := \<lambda>url sel. Inr () \<rparr>) path)"
  using assms
  by (auto simp add: render_def render_try_def render_catch_def Let_def split: prod.splits sum.splits)


theorem render_selector_wait_swallowed_witness:
  "render (browser_world 200 \<lparr> titles = [''Ant Design''], h1s = [], markdown_tables = 0 \<rparr>) ''/''
     = ([Goto ''http://127.0.0.1:3000/'', Settle 3000,
         WaitForSelector ''.markdown table'' False, Content],
        Inr (200, \<lparr> titles = [''Ant Design''], h1s = [], markdown_tables = 0 \<rparr>))"
  using render_selector_wait_swallowed
    [of "browser_world 200 \<lparr> titles = [''Ant Design''], h1s = [], markdown_tables = 0 \<rparr>"
        3000 "''/''" "Some \<lparr> response_status = 200 \<rparr>" "JsError ''TimeoutError''"]
  by (simp add: browser_world_def render_url_def status_or_0_def)

section \<open>Properties of the fixed scenarios\<close>

lemma and_then_ok: "and_then a b = Inr () \<longleftrightarrow> a = Inr () \<and> b = Inr ()"
  by (cases a) (simp_all add: and_then_def)

lemma expect_toBe_ok: "expect_toBe a b = Inr () \<longleftrightarrow> a = b"
  by (simp add: expect_toBe_def)

lemma expect_toMatch_ok: "expect_toMatch s p = Inr () \<longleftrightarrow> includes_str s p"
  by (simp add: expect_toMatch_def)

lemma heading_page_ok:
  "snd (render w path) = Inr (status, doc) \<Longrightarrow>
   heading_page w path phrase = Inr ()
     \<longleftrightarrow> status = 200 \<and> (h1_text doc = [] \<or> includes_str (h1_text doc) phrase)"
  by (auto simp: heading_page_def and_then_ok expect_toBe_ok expect_toMatch_ok Let_def)

lemma basic_page_ok:
  "snd (render w path) = Inr (status, doc) \<Longrightarrow> basic_page w path = Inr () \<longleftrightarrow> status = 200"
  by (auto simp: basic_page_def and_then_ok expect_toBe_ok expect_toMatch_ok Let_def)

text \<open>
  C4: in a fixed scenario a text that is not empty is asserted to contain the phrase of
  the locale. This holds for the overview and resources scenarios: they pass exactly when
  the status is 200 and the heading is empty or contains the phrase. The two home
  scenarios make the assertion on the title only when the title already contains
  \<^verbatim>\<open>Ant Design\<close>, so they pass exactly when the status is 200.
\<close>

theorem fixed_scenarios_checks:
  "(snd (render w ''/components/overview'') = Inr (status, doc) \<longrightarrow>
      (Overview_en w = Inr ()
         \<longleftrightarrow> status = 200 \<and> (h1_text doc = [] \<or> includes_str (h1_text doc) ''Overview'')))
   \<and> (snd (render w ''/components/overview-cn'') = Inr (status, doc) \<longrightarrow>
      (Overview_zh w = Inr ()
         \<longleftrightarrow> status = 200 \<and> (h1_text doc = [] \<or> includes_str (h1_text doc) phrase_overview_zh)))
   \<and> (snd (render w ''/docs/resources'') = Inr (status, doc) \<longrightarrow>
      (Resource_en w = Inr ()
         \<longleftrightarrow> status = 200 \<and> (h1_text doc = [] \<or> includes_str (h1_text doc) ''Resources'')))
   \<and> (snd (render w ''/docs/resources-cn'') = Inr (status, doc) \<longrightarrow>
      (Resource_zh w = Inr ()
         \<longleftrightarrow> status = 200 \<and> (h1_text doc = [] \<or> includes_str (h1_text doc) phrase_resources_zh)))
   \<and> (snd (render w ''/'') = Inr (status, doc) \<longrightarrow> (Basic_Pages_en w = Inr () \<longleftrightarrow> status = 200))
   \<and> (snd (render w ''/index-cn'') = Inr (status, doc) \<longrightarrow>
      (Basic_Pages_zh w = Inr () \<longleftrightarrow> status = 200))"
  unfolding Overview_en_def Overview_zh_def Resource_en_def Resource_zh_def
    Basic_Pages_en_def Basic_Pages_zh_def
  by (intro conjI impI heading_page_ok basic_page_ok)

lemma render_browser_world:
  "snd (render (browser_world st doc) path) = Inr (st, doc)"
  by (simp add: render_def render_try_def browser_world_def status_or_0_def Let_def)

theorem fixed_scenarios_checks_witness:
  "Overview_en (browser_world 200 \<lparr> titles = [''Ant Design''], h1s = [''Components Overview''], markdown_tables = 0 \<rparr>) = Inr ()
   \<and> Overview_en (browser_world 200 \<lparr> titles = [''Ant Design''], h1s = [], markdown_tables = 0 \<rparr>) = Inr ()
   \<and> Resource_en (browser_world 200 \<lparr> titles = [''Ant Design''], h1s = [''Components Overview''], markdown_tables = 0 \<rparr>) \<noteq> Inr ()
   \<and> Basic_Pages_en (browser_world 200 \<lparr> titles = [''Ant Design''], h1s = [], markdown_tables = 0 \<rparr>) = Inr ()"
  using fixed_scenarios_checks
    [of "browser_world 200 \<lparr> titles = [''Ant Design''], h1s = [''Components Overview''], markdown_tables = 0 \<rparr>"
        200 "\<lparr> titles = [''Ant Design''], h1s = [''Components Overview''], markdown_tables = 0 \<rparr>"]
    fixed_scenarios_checks
    [of "browser_world 200 \<lparr> titles = [''Ant Design''], h1s = [], markdown_tables = 0 \<rparr>"
        200 "\<lparr> titles = [''Ant Design''], h1s = [], markdown_tables = 0 \<rparr>"]
  by (simp add: render_browser_world h1_text_def startsWith_def)

theorem home_title_unchecked_counterexample:
  "title_first_text \<lparr> titles = [''Hello''], h1s = [], markdown_tables = 0 \<rparr> \<noteq> []
   \<and> \<not> includes_str (title_first_text \<lparr> titles = [''Hello''], h1s = [], markdown_tables = 0 \<rparr>) ''Ant Design''
   \<and> Basic_Pages_en (browser_world 200 \<lparr> titles = [''Hello''], h1s = [], markdown_tables = 0 \<rparr>) = Inr ()
   \<and> Basic_Pages_zh (browser_world 200 \<lparr> titles = [''Hello''], h1s = [], markdown_tables = 0 \<rparr>) = Inr ()"
  by (simp add: Basic_Pages_en_def Basic_Pages_zh_def basic_page_def render_browser_world
      title_first_text_def startsWith_def and_then_def expect_toBe_def)

section \<open>Properties of the teardown\<close>

text \<open>
  C8: the teardown releases the browser and the server. This holds when the browser was
  never launched or its \<^verbatim>\<open>close\<close> returns: the browser is then released, and the server
  too when its own \<^verbatim>\<open>close\<close> returns. When the \<^verbatim>\<open>close\<close> of a launched browser
  throws, the hook ends there and the session is as it was.
\<close>

theorem afterAll_releases_in_order:
  "((browser s = None \<or> browser_close = Inr ()) \<longrightarrow>
      released (browser (snd (afterAll browser_close server_close s)))
      \<and> (server_close = Inr () \<longrightarrow>
           released (server (snd (afterAll browser_close server_close s)))
           \<and> fst (afterAll browser_close server_close s) = Inr ()))
   \<and> (browser s \<noteq> None \<and> browser_close = Inl e \<longrightarrow>
        afterAll browser_close server_close s = (Inl e, s))"
  by (auto simp: afterAll_def released_def split: option.splits sum.splits)

theorem afterAll_releases_in_order_witness:
  "afterAll (Inr ()) (Inr ()) \<lparr> browser = Some Open, server = Some Open \<rparr>
     = (Inr (), \<lparr> browser = Some Closed, server = Some Closed \<rparr>)
   \<and> afterAll (Inl (JsError ''Protocol error'')) (Inr ()) \<lparr> browser = Some Open, server = Some Open \<rparr>
     = (Inl (JsError ''Protocol error''), \<lparr> browser = Some Open, server = Some Open \<rparr>)"
  using afterAll_releases_in_order
    [of "\<lparr> browser = Some Open, server = Some Open \<rparr>" "Inr ()" "Inr ()"]
    afterAll_releases_in_order
    [of "\<lparr> browser = Some Open, server = Some Open \<rparr>" "Inl (JsError ''Protocol error'')" "Inr ()"
        "JsError ''Protocol error''"]
  by (simp add: afterAll_def)

theorem afterAll_leaves_server_open_counterexample:
  "\<not> released (server (snd (afterAll (Inl (JsError ''Protocol error'')) (Inr ())
        \<lparr> browser = Some Open, server = Some Open \<rparr>)))"
  by (simp add: afterAll_def released_def)

section \<open>Properties of the polyfills\<close>

lemma map_of_map_set: "map_of (map_set k v m) = (map_of m)(k \<mapsto> v)"
  by (induction m) (auto simp: fun_eq_iff)

lemma map_of_map_delete: "map_of (map_delete k m) = (map_of m)(k := None)"
  by (induction m) (auto simp: map_delete_def fun_eq_iff)

lemma fd_do_untouched:
  "written_name c \<noteq> Some name \<Longrightarrow> map_of d name = None \<Longrightarrow> map_of (fd_do d c) name = None"
  by (cases c)
     (auto simp: fd_append_def fd_set_def fd_delete_def map_has_def map_get_def Let_def
        map_of_map_set map_of_map_delete split: option.splits)

lemma fd_foldl_untouched:
  "\<forall>c \<in> set calls. written_name c \<noteq> Some name \<Longrightarrow> map_of d name = None
   \<Longrightarrow> map_of (foldl fd_do d calls) name = None"
  by (induction calls arbitrary: d) (simp_all add: fd_do_untouched)

text \<open>
  C9: after \<^verbatim>\<open>set(name, v)\<close> on any form, \<^verbatim>\<open>getAll(name)\<close> is the list of
  \<open>v\<close> alone, whatever was appended before; on a form built by calls none of which
  appended to or set the name, \<^verbatim>\<open>getAll(name)\<close> is empty and \<^verbatim>\<open>get(name)\<close> is
  \<^verbatim>\<open>null\<close>.
\<close>

theorem MockFormData_set_getAll_get:
  "fd_getAll (fd_set d name v) name = [v]
   \<and> ((\<forall>c \<in> set calls. written_name c \<noteq> Some name) \<longrightarrow>
        fd_getAll (fd_after calls) name = [] \<and> fd_get (fd_after calls) name = Null)"
proof (intro conjI impI)
  show "fd_getAll (fd_set d name v) name = [v]"
    by (simp add: fd_getAll_def fd_set_def map_get_def map_of_map_set)
next
  assume "\<forall>c \<in> set calls. written_name c \<noteq> Some name"
  then have none: "map_of (fd_after calls) name = None"
    unfolding fd_after_def by (rule fd_foldl_untouched) (simp add: new_MockFormData_def)
  show "fd_getAll (fd_after calls) name = []"
    using none by (simp add: fd_getAll_def map_get_def)
  show "fd_get (fd_after calls) name = Null"
    using none by (simp add: fd_get_def map_get_def)
qed

theorem MockFormData_set_getAll_get_witness:
  "fd_getAll (fd_set (fd_after [Append ''a'' (1::nat), Append ''a'' 2, Append ''b'' 3]) ''a'' 7) ''a'' = [7]
   \<and> fd_getAll (fd_after [Append ''a'' (1::nat), SetTo ''b'' 3, Delete ''c'']) ''c'' = []
   \<and> fd_get (fd_after [Append ''a'' (1::nat), SetTo ''b'' 3, Delete ''c'']) ''c'' = Null"
  using MockFormData_set_getAll_get
    [of "fd_after [Append ''a'' (1::nat), Append ''a'' 2, Append ''b'' 3]" "''a''" 7
        "[Append ''a'' (1::nat), SetTo ''b'' 3, Delete ''c'']"]
    MockFormData_set_getAll_get
    [of "fd_after [Append ''a'' (1::nat), Append ''a'' 2, Append ''b'' 3]" "''c''" 7
        "[Append ''a'' (1::nat), SetTo ''b'' 3, Delete ''c'']"]
  by simp

text \<open>The encoder produces as many bytes as UTF-8 needs, and an example of its bytes.\<close>

lemma length_utf8_of_code_point:
  "length (utf8_of_code_point n) =
     (if n < 0x80 then 1 else if n < 0x800 then 2 else if n < 0x10000 then 3 else 4)"
  by (simp add: utf8_of_code_point_def)

lemma length_encode_unit:
  "length (utf8_of_code_point (code_point_of_unit c)) = unit_width c"
proof -
  have lt: "unat c < 0x10000" using unsigned_less [of c] by simp
  have a: "c < 0x80 \<longleftrightarrow> unat c < 0x80" by (simp add: word_less_nat_alt)
  have b: "c < 0x800 \<longleftrightarrow> unat c < 0x800" by (simp add: word_less_nat_alt)
  have h: "0xD800 \<le> c \<longleftrightarrow> 0xD800 \<le> unat c" by (simp add: word_le_nat_alt)
  have l: "0xDC00 \<le> c \<longleftrightarrow> 0xDC00 \<le> unat c" by (simp add: word_le_nat_alt)
  show ?thesis
    using lt
    by (auto simp: length_utf8_of_code_point code_point_of_unit_def unit_width_def
        is_high_surrogate_def is_low_surrogate_def a b h l)
qed

lemma length_encode_pair:
  "length (utf8_of_code_point (0x10000 + x)) = 4"
  by (simp add: length_utf8_of_code_point)

lemma length_TextEncoder_encode: "length (TextEncoder_encode s) = utf8_length s"
proof (induction s rule: TextEncoder_encode.induct)
  case 1
  show ?case by simp
next
  case (2 c)
  show ?case by (simp add: length_encode_unit)
next
  case (3 c d rest)
  show ?case
  proof (cases "is_high_surrogate c \<and> is_low_surrogate d")
    case True
    have "length (utf8_of_code_point
            (0x10000 + ((unat c - 0xD800) * 0x400 + (unat d - 0xDC00)))) = 4"
      by (rule length_encode_pair)
    then show ?thesis using True 3(1) by (simp add: add.assoc)
  next
    case False
    then show ?thesis using 3(2) by (auto simp: length_encode_unit)
  qed
qed

lemma foldl_add_bit_size:
  "foldl add_bit_size acc bits = acc + sum_list (map part_byte_length bits)"
  by (induction bits arbitrary: acc)
     (simp_all add: add_bit_size_def part_byte_length_def length_TextEncoder_encode
        split: blobPart.splits)

lemma concat_toString_strings: "concat (map toString_bit (map StringBit ss)) = concat ss"
  by (induction ss) (simp_all add: toString_bit_def)

lemma TextEncoder_encode_example:
  "TextEncoder_encode [0x61, 0xE9, 0x4E2D, 0xD83D, 0xDE00, 0xD800]
     = [0x61, 0xC3, 0xA9, 0xE4, 0xB8, 0xAD, 0xF0, 0x9F, 0x98, 0x80, 0xEF, 0xBF, 0xBD]"
  by (simp add: utf8_of_code_point_def code_point_of_unit_def is_high_surrogate_def
      is_low_surrogate_def)

text \<open>The constructor run on a file of a string and a buffer: 13 and 3 bytes.\<close>

lemma MockFile_size_example:
  "file_size (new_MockFile 1700000000000
        [StringBit [0x61, 0xE9, 0x4E2D, 0xD83D, 0xDE00, 0xD800], BufferBit [1, 2, 3]] (js ''a.txt'')
        \<lparr> opt_type = None, opt_lastModified = None \<rparr>) = 16"
  by (simp add: new_MockFile_def add_bit_size_def utf8_of_code_point_def code_point_of_unit_def
      is_high_surrogate_def is_low_surrogate_def)

text \<open>
  C10: for a file made of strings, \<^verbatim>\<open>text()\<close> is their concatenation in order; and
  the size of any file is the sum, over its parts, of the UTF-8 length of a string part
  and of the byte length of a buffer part.
\<close>

theorem MockFile_text_and_size:
  "file_text (new_MockFile now (map StringBit ss) filename options) = concat ss
   \<and> file_size (new_MockFile now bits filename options)
       = sum_list (map part_byte_length bits)"
  using concat_toString_strings [of ss]
  by (simp add: file_text_def new_MockFile_def foldl_add_bit_size)

theorem MockFile_text_and_size_witness:
  "file_text (new_MockFile 1700000000000 (map StringBit [[0x61, 0xE9], [0x4E2D]]) (js ''a.txt'')
      \<lparr> opt_type = None, opt_lastModified = None \<rparr>) = [0x61, 0xE9, 0x4E2D]
   \<and> file_size (new_MockFile 1700000000000
        [StringBit [0x61, 0xE9, 0x4E2D, 0xD83D, 0xDE00, 0xD800], BufferBit [1, 2, 3]] (js ''a.txt'')
        \<lparr> opt_type = None, opt_lastModified = None \<rparr>) = 16"
  using MockFile_text_and_size [of 1700000000000 "[[0x61, 0xE9], [0x4E2D]]" "js ''a.txt''"
      "\<lparr> opt_type = None, opt_lastModified = None \<rparr>"
      "[StringBit [0x61, 0xE9, 0x4E2D, 0xD83D, 0xDE00, 0xD800], BufferBit [1, 2, 3]]"]
  by (simp add: part_byte_length_def unit_width_def is_high_surrogate_def is_low_surrogate_def)

end
